theory Spec2Isabelle
  imports Complex_Main
begin

section \<open>The host platform: Node's \<open>path\<close> module and string case folding\<close>

text \<open>
  \<open>gameLogic.js\<close> computes on paths through Node's \<open>path\<close> module
  (\<open>path.sep\<close>, \<open>path.normalize\<close>, \<open>path.dirname\<close>, \<open>path.basename\<close>,
  \<open>path.join\<close>) and through \<open>String.prototype.toLowerCase\<close>. The module differs
  between POSIX and Windows, so the functions of \<open>gameLogic.js\<close> take the platform as a
  parameter: every theorem below holds for every implementation of these library
  functions, whatever they compute. A path is a \<open>string\<close>; one \<open>char\<close> stands for one
  code unit of the JavaScript string.
\<close>

record platform =
  path_sep :: char
  path_normalize :: "string \<Rightarrow> string"
  path_dirname :: "string \<Rightarrow> string"
  path_basename :: "string \<Rightarrow> string"
  path_join :: "string \<Rightarrow> string \<Rightarrow> string"
  toLowerCase :: "string \<Rightarrow> string"

text \<open>
  \<open>s.split(c)\<close> for a one-character separator: the pieces between the occurrences of
  \<open>c\<close>, empty pieces included, so the result is never empty (\<open>''''.split(c)\<close> is
  \<open>['''']\<close>).
\<close>

fun split :: "char \<Rightarrow> string \<Rightarrow> string list" where
  "split c [] = [[]]"
| "split c (x # xs) =
     (if x = c then [] # split c xs
      else (case split c xs of
              [] \<Rightarrow> [[x]]
            | piece # pieces \<Rightarrow> (x # piece) # pieces))"

text \<open>\<open>s.charCodeAt(0) || 0\<close>: the code of the first unit, and 0 for the empty string
  (where \<open>charCodeAt\<close> is \<open>NaN\<close>, which is falsy) and for the unit of code 0.\<close>

definition charCodeAt0 :: "string \<Rightarrow> int" where
  "charCodeAt0 s = (case s of [] \<Rightarrow> 0 | c # _ \<Rightarrow> of_char c)"

text \<open>
  JavaScript truthiness of a value that is a string, \<open>null\<close> or \<open>undefined\<close>
  (\<open>None\<close> stands for the last two): the empty string is falsy as they are.
  \<open>orDefault v d\<close> is \<open>v || d\<close> for a string \<open>d\<close>.
\<close>

definition truthy :: "string option \<Rightarrow> bool" where
  "truthy v = (case v of None \<Rightarrow> False | Some s \<Rightarrow> s \<noteq> [])"

definition orDefault :: "string option \<Rightarrow> string \<Rightarrow> string" where
  "orDefault v d = (case v of None \<Rightarrow> d | Some s \<Rightarrow> if s = [] then d else s)"

section \<open>PathDepth\<close>

definition getDirectoryDepth :: "platform \<Rightarrow> string \<Rightarrow> int" where
  "getDirectoryDepth P filePath =
     (let normalized = path_normalize P filePath;
          parts = filter (\<lambda>part. length part > 0) (split (path_sep P) normalized)
      in max 0 (int (length parts) - 1))"

definition getParentDirectory :: "platform \<Rightarrow> string \<Rightarrow> string" where
  "getParentDirectory P filePath = path_dirname P filePath"

section \<open>DistanceCalculator\<close>

datatype distance_method = alphabetical | depth

text \<open>The object \<open>calculateDistance\<close> returns: \<open>method\<close>, \<open>distance\<close> and the
  fields that come with the method.\<close>

datatype distance_info =
    Alphabetical (distance: int) (guessParent: string) (targetParent: string)
  | Depth (distance: int) (guessDepth: int) (targetDepth: int)

fun method_of :: "distance_info \<Rightarrow> distance_method" where
  "method_of (Alphabetical _ _ _) = alphabetical"
| "method_of (Depth _ _ _) = depth"

definition calculateDistance :: "platform \<Rightarrow> string \<Rightarrow> string \<Rightarrow> distance_info" where
  "calculateDistance P guessPath targetPath =
     (let guessParent = getParentDirectory P guessPath;
          targetParent = getParentDirectory P targetPath
      in if toLowerCase P guessParent = toLowerCase P targetParent then
           (let guessName = toLowerCase P (path_basename P guessPath);
                targetName = toLowerCase P (path_basename P targetPath);
                guessChar = charCodeAt0 guessName;
                targetChar = charCodeAt0 targetName;
                alphabeticalDistance = \<bar>guessChar - targetChar\<bar>
            in Alphabetical alphabeticalDistance guessParent targetParent)
         else
           (let guessDepth = getDirectoryDepth P guessPath;
                targetDepth = getDirectoryDepth P targetPath;
                depthDifference = \<bar>guessDepth - targetDepth\<bar>
            in Depth depthDifference guessDepth targetDepth))"

section \<open>GuessComparator\<close>

datatype verdict = first | closer | farther | same

text \<open>
  \<open>previousGuessPath\<close> is a path or \<open>null\<close>; the test \<open>!previousGuessPath\<close> is
  JavaScript falsiness. The last block of the source (``both are depth-based'') is kept
  as written, although no pair of methods reaches it.
\<close>

definition compareGuesses :: "platform \<Rightarrow> string \<Rightarrow> string option \<Rightarrow> string \<Rightarrow> verdict" where
  "compareGuesses P newGuessPath previousGuessPath targetPath =
     (case previousGuessPath of
        None \<Rightarrow> first
      | Some previousPath \<Rightarrow>
          if \<not> truthy previousGuessPath then first
          else
            (let newDistance = calculateDistance P newGuessPath targetPath;
                 previousDistance = calculateDistance P previousPath targetPath
             in if method_of newDistance = method_of previousDistance then
                  (if distance newDistance < distance previousDistance then closer
                   else if distance newDistance > distance previousDistance then farther
                   else same)
                else if method_of newDistance = alphabetical then closer
                else if method_of previousDistance = alphabetical then farther
                else if distance newDistance < distance previousDistance then closer
                else if distance newDistance > distance previousDistance then farther
                else same))"

section \<open>DirectoryScanner\<close>

text \<open>
  The file system as \<open>scanDirectory\<close> sees it: \<open>fs.promises.readdir(dir,
  {withFileTypes: true})\<close> either fails or lists the directory's entries, each with
  its name and its type (\<open>entry.isFile()\<close>, \<open>entry.isDirectory()\<close>, or neither:
  a link, a socket, a device). \<open>fs.existsSync\<close> is a predicate on paths. Both are
  parameters: nothing is assumed of the tree, which may be arbitrarily deep.
\<close>

datatype fs_error = ENOENT | EACCES | ENOTDIR | EIO

datatype dirent_kind = File | Directory | Other

record dirent =
  name :: string
  kind :: dirent_kind

record file_system =
  readdir :: "string \<Rightarrow> fs_error + dirent list"
  existsSync :: "string \<Rightarrow> bool"

text \<open>
  The progress sink receives a text and the number of files so far. The model records
  its calls, oldest first, when a sink is passed (\<open>cb\<close>) and nothing when it is
  \<open>null\<close>, as in \<open>main.js\<close>. The texts \<open>scanCommonDirectories\<close> builds from
  templates are kept as their parts. A sink of this kind returns normally, so the
  branches of the source that catch an exception of \<open>scanDirectory\<close> itself have
  nothing to catch: every failure of \<open>readdir\<close> is handled where it happens.
\<close>

datatype label =
    Path string
  | Scanning string nat nat
  | Completed string nat

record scan_state =
  fileList :: "string list"
  calls :: "(label \<times> nat) list"

definition progressCallback :: "label \<Rightarrow> nat \<Rightarrow> scan_state \<Rightarrow> scan_state" where
  "progressCallback l n st = st\<lparr>calls := calls st @ [(l, n)]\<rparr>"

definition skipDirs :: "string list" where
  "skipDirs = [''$Recycle.Bin'', ''System Volume Information'', ''Windows'',
               ''node_modules'', ''.git'']"

text \<open>
  \<open>scanDirectory\<close> and the loop over the entries of one directory. The array
  \<open>fileList\<close> is shared by all recursive calls and only grows; the model passes the
  state in and out. \<open>maxDepth\<close>, \<open>currentDepth\<close> and \<open>maxFiles\<close> are counts.
  The outer \<open>try\<close> of the source is the case on the result of \<open>readdir\<close>: a listing
  that fails leaves the state as it is. The inner \<open>try\<close> has nothing to catch: the
  type queries of an entry read a stored field, and the recursive call has no failing
  outcome.
\<close>

function scanDirectory ::
    "platform \<Rightarrow> file_system \<Rightarrow> bool \<Rightarrow> string \<Rightarrow> nat \<Rightarrow> nat \<Rightarrow> scan_state \<Rightarrow> nat \<Rightarrow> scan_state"
  and scanEntries ::
    "platform \<Rightarrow> file_system \<Rightarrow> bool \<Rightarrow> string \<Rightarrow> dirent list \<Rightarrow> nat \<Rightarrow> nat \<Rightarrow> scan_state \<Rightarrow> nat
       \<Rightarrow> scan_state"
where
  "scanDirectory P fs cb dirPath maxDepth currentDepth st maxFiles =
     (if currentDepth \<ge> maxDepth \<or> length (fileList st) \<ge> maxFiles then st
      else
        (let st1 = (if cb \<and> currentDepth = 0
                    then progressCallback (Path dirPath) (length (fileList st)) st else st)
         in case readdir fs dirPath of
              Inl err \<Rightarrow> st1
            | Inr entries \<Rightarrow> scanEntries P fs cb dirPath entries maxDepth currentDepth st1 maxFiles))"
| "scanEntries P fs cb dirPath [] maxDepth currentDepth st maxFiles = st"
| "scanEntries P fs cb dirPath (entry # rest) maxDepth currentDepth st maxFiles =
     (if length (fileList st) \<ge> maxFiles then st
      else
        (let fullPath = path_join P dirPath (name entry)
         in case kind entry of
              File \<Rightarrow>
                (let st1 = st\<lparr>fileList := fileList st @ [fullPath]\<rparr>;
                     st2 = (if cb \<and> (length (fileList st1) mod 5 = 0 \<or> currentDepth = 0)
                            then progressCallback (Path fullPath) (length (fileList st1)) st1
                            else st1)
                 in scanEntries P fs cb dirPath rest maxDepth currentDepth st2 maxFiles)
            | Directory \<Rightarrow>
                (if name entry \<notin> set skipDirs
                 then scanEntries P fs cb dirPath rest maxDepth currentDepth
                        (scanDirectory P fs cb fullPath maxDepth (currentDepth + 1) st maxFiles)
                        maxFiles
                 else scanEntries P fs cb dirPath rest maxDepth currentDepth st maxFiles)
            | Other \<Rightarrow> scanEntries P fs cb dirPath rest maxDepth currentDepth st maxFiles))"
  by pat_completeness auto
termination
  by (relation "measures
        [\<lambda>x. case x of
               Inl (P, fs, cb, dirPath, maxDepth, currentDepth, st, maxFiles) \<Rightarrow>
                 2 * (maxDepth - currentDepth)
             | Inr (P, fs, cb, dirPath, entries, maxDepth, currentDepth, st, maxFiles) \<Rightarrow>
                 2 * (maxDepth - currentDepth) - 1,
         \<lambda>x. case x of
               Inl _ \<Rightarrow> 0
             | Inr (P, fs, cb, dirPath, entries, maxDepth, currentDepth, st, maxFiles) \<Rightarrow>
                 length entries]")
     auto

section \<open>RootSetScanner\<close>

record environment =
  HOME :: "string option"
  USERPROFILE :: "string option"

datatype error = NoAccessibleRoots | NoFilesFound | EmptyCandidateSet

text \<open>
  The three errors the module throws, by the names the specification gives them:
  \<open>'No accessible directories found'\<close>, \<open>'No files found in any accessible
  directories'\<close> and \<open>'No files available to select as target'\<close>.
\<close>

definition userProfile :: "environment \<Rightarrow> string" where
  "userProfile env = orDefault (HOME env) (orDefault (USERPROFILE env) [CHR ''C'', CHR '':'', CHR 0x5C])"

definition commonDirs :: "platform \<Rightarrow> environment \<Rightarrow> string list" where
  "commonDirs P env =
     [path_join P (userProfile env) ''Documents'',
      path_join P (userProfile env) ''Desktop'',
      path_join P (userProfile env) ''Downloads'',
      path_join P (userProfile env) ''Pictures'',
      path_join P (userProfile env) ''Music'',
      path_join P (userProfile env) ''Videos'']"

definition totalMaxFiles :: nat where
  "totalMaxFiles = 20000"

text \<open>
  The loop of \<open>scanCommonDirectories\<close> over \<open>existingDirs\<close> from index \<open>i\<close> on
  (\<open>n\<close> is \<open>existingDirs.length\<close>); the state holds \<open>allFiles\<close> and the sink's
  calls. Each root is scanned into a fresh array, with the same sink.
\<close>

fun scanRoots ::
    "platform \<Rightarrow> file_system \<Rightarrow> bool \<Rightarrow> string list \<Rightarrow> nat \<Rightarrow> nat \<Rightarrow> scan_state \<Rightarrow> scan_state"
where
  "scanRoots P fs cb [] i n st = st"
| "scanRoots P fs cb (dir # rest) i n st =
     (let dirName = path_basename P dir;
          st1 = (if cb then progressCallback (Scanning dirName (i + 1) n) (length (fileList st)) st
                 else st)
      in if length (fileList st1) \<ge> totalMaxFiles then st1
         else
           (let remainingSlots = totalMaxFiles - length (fileList st1);
                scanned = scanDirectory P fs cb dir 7 0 \<lparr>fileList = [], calls = calls st1\<rparr>
                            remainingSlots;
                files = fileList scanned;
                st2 = \<lparr>fileList = fileList st1 @ files, calls = calls scanned\<rparr>;
                st3 = (if cb
                       then progressCallback (Completed dirName (length files))
                              (length (fileList st2)) st2
                       else st2)
            in scanRoots P fs cb rest (i + 1) n st3))"

definition scanCommonDirectories ::
    "platform \<Rightarrow> file_system \<Rightarrow> environment \<Rightarrow> bool \<Rightarrow> (error + string list) \<times> (label \<times> nat) list"
where
  "scanCommonDirectories P fs env cb =
     (let existingDirs = filter (existsSync fs) (commonDirs P env)
      in if length existingDirs = 0 then (Inl NoAccessibleRoots, [])
         else
           (let st = scanRoots P fs cb existingDirs 0 (length existingDirs)
                       \<lparr>fileList = [], calls = []\<rparr>
            in if length (fileList st) = 0 then (Inl NoFilesFound, calls st)
               else (Inr (fileList st), calls st)))"

section \<open>TargetSelector\<close>





fun excess :: "nat \<Rightarrow> nat" where
  "excess M = (if M < 2 ^ 53 then 0 else Suc (excess (M div 2)))"

declare excess.simps [simp del]




section \<open>Notions the properties are stated with\<close>

text \<open>\<open>parts.join(s)\<close>: the pieces with the separator between them.\<close>

fun joinWith :: "string \<Rightarrow> string list \<Rightarrow> string" where
  "joinWith s [] = []"
| "joinWith s [x] = x"
| "joinWith s (x # y # ys) = x @ s @ joinWith s (y # ys)"

text \<open>
  How \<open>scanDirectory\<close> reaches an entry. \<open>listed fs dir n k\<close>: \<open>readdir\<close> lists an entry
  of name \<open>n\<close> and type \<open>k\<close> in \<open>dir\<close>. \<open>descend P dir ds\<close>: the path built from \<open>dir\<close>
  by joining the names \<open>ds\<close> one after the other, as \<open>fullPath\<close> is built at each level.
  \<open>chain P fs dir ds\<close>: each name of \<open>ds\<close> is a directory listed in the directory
  reached before it.
\<close>

definition listed :: "file_system \<Rightarrow> string \<Rightarrow> string \<Rightarrow> dirent_kind \<Rightarrow> bool" where
  "listed fs dir n k =
     (case readdir fs dir of
        Inl err \<Rightarrow> False
      | Inr entries \<Rightarrow> \<exists>e\<in>set entries. name e = n \<and> kind e = k)"

definition descend :: "platform \<Rightarrow> string \<Rightarrow> string list \<Rightarrow> string" where
  "descend P dir ds = foldl (path_join P) dir ds"

fun chain :: "platform \<Rightarrow> file_system \<Rightarrow> string \<Rightarrow> string list \<Rightarrow> bool" where
  "chain P fs dir [] = True"
| "chain P fs dir (d # ds) = (listed fs dir d Directory \<and> chain P fs (path_join P dir d) ds)"

definition foundBelow :: "platform \<Rightarrow> file_system \<Rightarrow> string \<Rightarrow> nat \<Rightarrow> string \<Rightarrow> bool" where
  "foundBelow P fs dir k p =
     (\<exists>ds f. length ds < k \<and> chain P fs dir ds \<and> (\<forall>d\<in>set ds. d \<notin> set skipDirs)
        \<and> listed fs (descend P dir ds) f File \<and> p = path_join P (descend P dir ds) f)"

text \<open>
  The directories a path lies in, read off the path itself: the non-empty segments of
  its normal form but the last. \<open>insideSkipped P p\<close>: one of them has a name of the
  skip list.
\<close>

definition insideSkipped :: "platform \<Rightarrow> string \<Rightarrow> bool" where
  "insideSkipped P p =
     (\<exists>d\<in>set (butlast (filter (\<lambda>part. length part > 0)
                   (split (path_sep P) (path_normalize P p)))). d \<in> set skipDirs)"

text \<open>The state without the record of the sink's calls.\<close>

definition erase :: "scan_state \<Rightarrow> scan_state" where
  "erase st = \<lparr>fileList = fileList st, calls = []\<rparr>"

text \<open>
  RootSetScanner as the specification words it: the roots in order, each scanned by
  DirectoryScanner (depth 7, no sink) with the capacity that remains, none scanned once
  the global cap is reached.
\<close>

definition scanFiles :: "platform \<Rightarrow> file_system \<Rightarrow> string \<Rightarrow> nat \<Rightarrow> nat \<Rightarrow> string list" where
  "scanFiles P fs dir maxDepth maxFiles =
     fileList (scanDirectory P fs False dir maxDepth 0 \<lparr>fileList = [], calls = []\<rparr> maxFiles)"

fun collectRoots :: "platform \<Rightarrow> file_system \<Rightarrow> string list \<Rightarrow> string list \<Rightarrow> string list" where
  "collectRoots P fs [] collected = collected"
| "collectRoots P fs (dir # rest) collected =
     (if length collected \<ge> totalMaxFiles then collected
      else collectRoots P fs rest
             (collected @ scanFiles P fs dir 7 (totalMaxFiles - length collected)))"

section \<open>A POSIX platform and two small file systems, for evaluation\<close>

text \<open>
  \<open>path.posix\<close> as Node documents and implements it: \<open>dirname\<close> and \<open>basename\<close> ignore
  trailing separators; \<open>normalize\<close> resolves \<open>.\<close> and \<open>..\<close> segments, collapses
  repeated separators and keeps a trailing one; \<open>join\<close> normalizes the non-empty
  arguments joined by \<open>/\<close>. \<open>toLowerCase\<close> is given for code units below 256. The
  concrete statements below (the examples of the specification among them) are
  evaluated on this platform.
\<close>

definition posix_dirname :: "string \<Rightarrow> string" where
  "posix_dirname path =
     (if path = [] then ''.''
      else
        (let hasRoot = (hd path = CHR ''/'');
             r = dropWhile (\<lambda>c. c \<noteq> CHR ''/'') (dropWhile (\<lambda>c. c = CHR ''/'') (rev (tl path)));
             end = length r
         in if r = [] then (if hasRoot then ''/'' else ''.'')
            else if hasRoot \<and> end = 1 then ''//''
            else take end path))"

definition posix_basename :: "string \<Rightarrow> string" where
  "posix_basename path =
     rev (takeWhile (\<lambda>c. c \<noteq> CHR ''/'') (dropWhile (\<lambda>c. c = CHR ''/'') (rev path)))"

fun normalizeString :: "bool \<Rightarrow> string list \<Rightarrow> string list \<Rightarrow> string list" where
  "normalizeString allowAboveRoot res [] = res"
| "normalizeString allowAboveRoot res (seg # segs) =
     (if seg = [] \<or> seg = ''.'' then normalizeString allowAboveRoot res segs
      else if seg = ''..'' then
        (if res \<noteq> [] \<and> last res \<noteq> ''..''
         then normalizeString allowAboveRoot (butlast res) segs
         else if allowAboveRoot then normalizeString allowAboveRoot (res @ [''..'']) segs
         else normalizeString allowAboveRoot res segs)
      else normalizeString allowAboveRoot (res @ [seg]) segs)"

definition posix_normalize :: "string \<Rightarrow> string" where
  "posix_normalize path =
     (if path = [] then ''.''
      else
        (let isAbsolute = (hd path = CHR ''/'');
             trailingSeparator = (last path = CHR ''/'');
             p = joinWith ''/'' (normalizeString (\<not> isAbsolute) [] (split (CHR ''/'') path))
         in if p = [] then (if isAbsolute then ''/'' else if trailingSeparator then ''./'' else ''.'')
            else
              (let q = (if trailingSeparator then p @ ''/'' else p)
               in if isAbsolute then CHR ''/'' # q else q)))"

definition posix_join :: "string \<Rightarrow> string \<Rightarrow> string" where
  "posix_join a b =
     (let args = filter (\<lambda>arg. length arg > 0) [a, b]
      in if args = [] then ''.'' else posix_normalize (joinWith ''/'' args))"

definition lowerUnit :: "char \<Rightarrow> char" where
  "lowerUnit c =
     (let n = (of_char c :: nat)
      in if (65 \<le> n \<and> n \<le> 90) \<or> (192 \<le> n \<and> n \<le> 222 \<and> n \<noteq> 215)
         then char_of (n + 32) else c)"

definition posix :: platform where
  "posix = \<lparr>path_sep = CHR ''/'', path_normalize = posix_normalize,
             path_dirname = posix_dirname, path_basename = posix_basename,
             path_join = posix_join, toLowerCase = map lowerUnit\<rparr>"

text \<open>
  A home directory: \<open>Documents\<close> holds two files, a link, a directory \<open>notes\<close> (a file
  and a directory \<open>old\<close> with one file) and a directory \<open>node_modules\<close> with one file;
  \<open>Desktop\<close> exists and cannot be listed; the other four roots do not exist.
\<close>

definition home_readdir :: "string \<Rightarrow> fs_error + dirent list" where
  "home_readdir dir =
     (if dir = ''/home/u/Documents'' then
        Inr [\<lparr>name = ''a.txt'', kind = File\<rparr>, \<lparr>name = ''notes'', kind = Directory\<rparr>,
             \<lparr>name = ''node_modules'', kind = Directory\<rparr>, \<lparr>name = ''link'', kind = Other\<rparr>,
             \<lparr>name = ''z.txt'', kind = File\<rparr>]
      else if dir = ''/home/u/Documents/notes'' then
        Inr [\<lparr>name = ''b.txt'', kind = File\<rparr>, \<lparr>name = ''old'', kind = Directory\<rparr>]
      else if dir = ''/home/u/Documents/notes/old'' then
        Inr [\<lparr>name = ''c.txt'', kind = File\<rparr>]
      else if dir = ''/home/u/Documents/node_modules'' then
        Inr [\<lparr>name = ''pkg.js'', kind = File\<rparr>]
      else if dir = ''/home/u/Desktop'' then Inl EACCES
      else Inl ENOENT)"

definition home_fs :: file_system where
  "home_fs = \<lparr>readdir = home_readdir,
               existsSync = (\<lambda>p. p = ''/home/u/Documents'' \<or> p = ''/home/u/Desktop'')\<rparr>"

definition home_env :: environment where
  "home_env = \<lparr>HOME = Some ''/home/u'', USERPROFILE = None\<rparr>"

text \<open>A repository whose \<open>.git\<close> directory holds one file.\<close>

definition repo_readdir :: "string \<Rightarrow> fs_error + dirent list" where
  "repo_readdir dir =
     (if dir = ''/repo/.git'' then Inr [\<lparr>name = ''HEAD'', kind = File\<rparr>]
      else Inl ENOENT)"

definition repo_fs :: file_system where
  "repo_fs = \<lparr>readdir = repo_readdir, existsSync = (\<lambda>p. p = ''/repo/.git'')\<rparr>"

text \<open>A home directory in which only \<open>Desktop\<close> exists, and nothing can be listed.\<close>

definition locked_fs :: file_system where
  "locked_fs = \<lparr>readdir = (\<lambda>dir. Inl EACCES), existsSync = (\<lambda>p. p = ''/home/u/Desktop'')\<rparr>"

section \<open>Splitting and joining\<close>

text \<open>
  Splitting at a separator and joining with it are inverse to each other on lists of
  separator-free pieces, so the pieces \<open>split\<close> returns are the segments of the path.
\<close>

lemma split_not_Nil: "split c s \<noteq> []"
  by (induction s) (auto split: list.splits)

lemma split_no_sep: "c \<notin> set x \<Longrightarrow> split c x = [x]"
  by (induction x) auto

lemma split_append_sep: "c \<notin> set x \<Longrightarrow> split c (x @ c # ys) = x # split c ys"
  by (induction x) auto

lemma split_joinWith:
  "segs \<noteq> [] \<Longrightarrow> \<forall>s\<in>set segs. c \<notin> set s \<Longrightarrow> split c (joinWith [c] segs) = segs"
proof (induction segs)
  case Nil
  then show ?case by simp
next
  case (Cons s segs)
  show ?case
  proof (cases segs)
    case Nil
    with Cons.prems show ?thesis by (simp add: split_no_sep)
  next
    case (Cons t ts)
    with Cons.IH Cons.prems have "split c (joinWith [c] segs) = segs" by simp
    with Cons Cons.prems show ?thesis by (simp add: split_append_sep)
  qed
qed

lemma split_sep_free: "p \<in> set (split c s) \<Longrightarrow> c \<notin> set p"
proof (induction s arbitrary: p)
  case Nil
  then show ?case by simp
next
  case (Cons x xs)
  then show ?case
    by (auto split: if_splits list.splits)
qed

lemma joinWith_split: "joinWith [c] (split c s) = s"
proof (induction s)
  case Nil
  then show ?case by simp
next
  case (Cons x xs)
  show ?case
  proof (cases "split c xs")
    case Nil
    then show ?thesis using split_not_Nil [of c xs] by simp
  next
    case outer: (Cons piece pieces)
    with Cons show ?thesis
      by (cases pieces) (auto split: if_splits)
  qed
qed

section \<open>PathDepth and DistanceCalculator: properties\<close>

text \<open>
  C8. Whenever the normal form of a path is the segments \<open>segs\<close> with the separator
  between them (every string is: \<open>joinWith_split\<close>, \<open>split_sep_free\<close>; an absolute
  path has an empty first segment), \<open>getDirectoryDepth\<close> is the number of non-empty
  segments minus one, and 0 where that would be negative. The result is never
  negative; the function has no failing branch. A file directly under the root has
  depth 0.
\<close>

theorem getDirectoryDepth_segments:
  assumes "path_normalize P filePath = joinWith [path_sep P] segs"
    and "\<forall>s\<in>set segs. path_sep P \<notin> set s"
  shows "getDirectoryDepth P filePath = max 0 (int (length (filter (\<lambda>s. s \<noteq> []) segs)) - 1)
    \<and> 0 \<le> getDirectoryDepth P filePath"
proof (cases segs)
  case Nil
  with assms show ?thesis by (simp add: getDirectoryDepth_def)
next
  case (Cons s ss)
  with assms have "split (path_sep P) (path_normalize P filePath) = segs"
    using split_joinWith [of segs "path_sep P"] by simp
  then show ?thesis by (simp add: getDirectoryDepth_def)
qed

theorem getDirectoryDepth_segments_witness:
  "path_normalize posix ''/a/./b//c/file.txt''
     = joinWith [path_sep posix] ['''', ''a'', ''b'', ''c'', ''file.txt'']
   \<and> getDirectoryDepth posix ''/a/./b//c/file.txt'' = 3
   \<and> path_normalize posix ''/file.txt'' = joinWith [path_sep posix] ['''', ''file.txt'']
   \<and> getDirectoryDepth posix ''/file.txt'' = 0"
proof -
  have n1: "path_normalize posix ''/a/./b//c/file.txt''
              = joinWith [path_sep posix] ['''', ''a'', ''b'', ''c'', ''file.txt'']"
    by code_simp
  have s1: "\<forall>s\<in>set ['''', ''a'', ''b'', ''c'', ''file.txt'']. path_sep posix \<notin> set s"
    by (simp add: posix_def)
  have n2: "path_normalize posix ''/file.txt'' = joinWith [path_sep posix] ['''', ''file.txt'']"
    by code_simp
  have s2: "\<forall>s\<in>set ['''', ''file.txt'']. path_sep posix \<notin> set s"
    by (simp add: posix_def)
  show ?thesis
    using n1 n2 getDirectoryDepth_segments [OF n1 s1] getDirectoryDepth_segments [OF n2 s2]
    by simp
qed

text \<open>
  C7. The distance of a path to itself is alphabetical with magnitude 0. For every
  pair of paths \<open>calculateDistance\<close> returns a distance (it has no failing branch):
  alphabetical exactly when the parent directories agree up to case, depth-based
  otherwise, with a magnitude that is never negative.
\<close>

theorem calculateDistance_self:
  "calculateDistance P p p = Alphabetical 0 (path_dirname P p) (path_dirname P p)
   \<and> method_of (calculateDistance P p p) = alphabetical
   \<and> distance (calculateDistance P p p) = 0
   \<and> method_of (calculateDistance P guessPath targetPath)
       = (if toLowerCase P (path_dirname P guessPath) = toLowerCase P (path_dirname P targetPath)
          then alphabetical else depth)
   \<and> 0 \<le> distance (calculateDistance P guessPath targetPath)"
  by (simp add: calculateDistance_def getParentDirectory_def Let_def)

theorem calculateDistance_self_witness:
  "calculateDistance posix ''/home/docs/m.txt'' ''/home/docs/m.txt''
     = Alphabetical 0 ''/home/docs'' ''/home/docs''"
proof -
  have "path_dirname posix ''/home/docs/m.txt'' = ''/home/docs''" by code_simp
  then show ?thesis
    using calculateDistance_self [of posix "''/home/docs/m.txt''"] by simp
qed

section \<open>GuessComparator: properties\<close>

text \<open>
  C1. Let the previous guess be present, that is, pass the test of the source
  (\<open>previousGuessPath\<close> is truthy: a non-empty path). If the distances of the new and
  the previous guess to the target have different methods, the verdict is \<open>closer\<close>
  when the new guess's method is alphabetical and \<open>farther\<close> when the previous
  guess's is, whatever the two magnitudes. The example has a depth-based magnitude of
  0 against an alphabetical magnitude of 13.
\<close>

theorem compareGuesses_methods_differ:
  assumes "previousGuess \<noteq> []"
    and "method_of (calculateDistance P newGuess t)
           \<noteq> method_of (calculateDistance P previousGuess t)"
  shows "(method_of (calculateDistance P newGuess t) = alphabetical
            \<longrightarrow> compareGuesses P newGuess (Some previousGuess) t = closer)
       \<and> (method_of (calculateDistance P previousGuess t) = alphabetical
            \<longrightarrow> compareGuesses P newGuess (Some previousGuess) t = farther)"
  using assms by (auto simp: compareGuesses_def truthy_def Let_def)

theorem compareGuesses_methods_differ_witness:
  "calculateDistance posix ''/a/b/c/z.txt'' ''/a/b/c/m.txt'' = Alphabetical 13 ''/a/b/c'' ''/a/b/c''
   \<and> calculateDistance posix ''/x/y/z/m.txt'' ''/a/b/c/m.txt'' = Depth 0 3 3
   \<and> compareGuesses posix ''/a/b/c/z.txt'' (Some ''/x/y/z/m.txt'') ''/a/b/c/m.txt'' = closer
   \<and> compareGuesses posix ''/x/y/z/m.txt'' (Some ''/a/b/c/z.txt'') ''/a/b/c/m.txt'' = farther"
proof -
  have a: "calculateDistance posix ''/a/b/c/z.txt'' ''/a/b/c/m.txt''
             = Alphabetical 13 ''/a/b/c'' ''/a/b/c''"
    by code_simp
  have d: "calculateDistance posix ''/x/y/z/m.txt'' ''/a/b/c/m.txt'' = Depth 0 3 3"
    by code_simp
  have differ: "method_of (calculateDistance posix ''/a/b/c/z.txt'' ''/a/b/c/m.txt'')
                  \<noteq> method_of (calculateDistance posix ''/x/y/z/m.txt'' ''/a/b/c/m.txt'')"
    by (simp add: a d)
  have ne1: "''/x/y/z/m.txt'' \<noteq> []" and ne2: "''/a/b/c/z.txt'' \<noteq> []" by simp_all
  show ?thesis
    using a d compareGuesses_methods_differ [OF ne1 differ]
      compareGuesses_methods_differ [OF ne2 differ [symmetric]]
    by simp
qed

text \<open>
  C9. Without a previous guess the verdict is \<open>first\<close>, for every guess and target;
  and it is \<open>first\<close> in that case only: with a previous guess present (a non-empty
  path, which is what the test of the source asks for) the verdict is never \<open>first\<close>.
\<close>

theorem compareGuesses_first_only:
  "compareGuesses P g None t = first
   \<and> (previousGuess \<noteq> [] \<longrightarrow> compareGuesses P g (Some previousGuess) t \<noteq> first)"
  by (auto simp: compareGuesses_def truthy_def Let_def)

theorem compareGuesses_first_only_witness:
  "compareGuesses posix ''/home/docs/b.txt'' None ''/home/docs/z.txt'' = first
   \<and> compareGuesses posix ''/home/docs/k.txt'' (Some ''/home/docs/a.txt'') ''/home/docs/m.txt''
       \<noteq> first"
proof -
  have ne: "''/home/docs/a.txt'' \<noteq> []" by simp
  show ?thesis
    using ne compareGuesses_first_only [of posix "''/home/docs/b.txt''" "''/home/docs/z.txt''"]
      compareGuesses_first_only
        [of posix "''/home/docs/k.txt''" "''/home/docs/m.txt''" "''/home/docs/a.txt''"]
    by simp
qed

text \<open>
  C10. For guesses \<open>a\<close> and \<open>b\<close> that are present (non-empty, so that each passes the
  test of the source when it is the previous guess) and every target: \<open>a\<close> after \<open>b\<close>
  is \<open>closer\<close> exactly when \<open>b\<close> after \<open>a\<close> is \<open>farther\<close>; \<open>a\<close> after \<open>b\<close> is \<open>same\<close>
  exactly when \<open>b\<close> after \<open>a\<close> is; and \<open>a\<close> after \<open>a\<close> is \<open>same\<close>.
\<close>

theorem compareGuesses_swap:
  assumes "a \<noteq> []" and "b \<noteq> []"
  shows "((compareGuesses P a (Some b) t = closer) = (compareGuesses P b (Some a) t = farther))
    \<and> ((compareGuesses P a (Some b) t = same) = (compareGuesses P b (Some a) t = same))
    \<and> compareGuesses P a (Some a) t = same"
  using assms by (auto simp: compareGuesses_def truthy_def Let_def)

theorem compareGuesses_swap_witness:
  "compareGuesses posix ''/home/docs/k.txt'' (Some ''/home/docs/a.txt'') ''/home/docs/m.txt'' = closer
   \<and> compareGuesses posix ''/home/docs/a.txt'' (Some ''/home/docs/k.txt'') ''/home/docs/m.txt''
       = farther
   \<and> compareGuesses posix ''/home/docs/k.txt'' (Some ''/home/docs/k.txt'') ''/home/docs/m.txt'' = same"
proof -
  have c: "compareGuesses posix ''/home/docs/k.txt'' (Some ''/home/docs/a.txt'') ''/home/docs/m.txt''
             = closer"
    by code_simp
  have ne1: "''/home/docs/k.txt'' \<noteq> []" and ne2: "''/home/docs/a.txt'' \<noteq> []" by simp_all
  show ?thesis
    using c compareGuesses_swap [OF ne1 ne2, of posix "''/home/docs/m.txt''"] by simp
qed

section \<open>DirectoryScanner: the accumulator and the entries found\<close>

lemma fileList_progressCallback [simp]: "fileList (progressCallback l n st) = fileList st"
  by (simp add: progressCallback_def)

text \<open>The accumulator never grows beyond the cap, at any depth.\<close>

lemma scan_cap:
  "length (fileList (scanDirectory P fs cb dirPath maxDepth currentDepth st maxFiles))
     \<le> max (length (fileList st)) maxFiles"
  "length (fileList (scanEntries P fs cb dirPath entries maxDepth currentDepth st maxFiles))
     \<le> max (length (fileList st)) maxFiles"
proof (induction P fs cb dirPath maxDepth currentDepth st maxFiles
         and P fs cb dirPath entries maxDepth currentDepth st maxFiles
       rule: scanDirectory_scanEntries.induct)
  case (1 P fs cb dirPath maxDepth currentDepth st maxFiles)
  then show ?case
    by (auto simp: Let_def split: sum.splits)
next
  case (2 P fs cb dirPath maxDepth currentDepth st maxFiles)
  then show ?case by simp
next
  case (3 P fs cb dirPath entry rest maxDepth currentDepth st maxFiles)
  show ?case
  proof (cases "maxFiles \<le> length (fileList st)")
    case True
    then show ?thesis by simp
  next
    case False
    then show ?thesis
      using "3.IH"
      by (cases "kind entry") (auto simp: Let_def split: if_splits)
  qed
qed

lemma descend_Cons: "descend P dir (d # ds) = descend P (path_join P dir d) ds"
  by (simp add: descend_def)

lemma foundBelow_file:
  assumes "readdir fs dir = Inr entries" "e \<in> set entries" "kind e = File" "0 < k"
  shows "foundBelow P fs dir k (path_join P dir (name e))"
proof -
  have "listed fs (descend P dir []) (name e) File"
    using assms by (auto simp: listed_def descend_def)
  then show ?thesis
    unfolding foundBelow_def using assms(4)
    by (intro exI [of _ "[]"] exI [of _ "name e"]) (simp add: descend_def)
qed

lemma foundBelow_step:
  assumes "readdir fs dir = Inr entries" "e \<in> set entries" "kind e = Directory"
    "name e \<notin> set skipDirs" "foundBelow P fs (path_join P dir (name e)) k p"
  shows "foundBelow P fs dir (Suc k) p"
proof -
  from assms(5) obtain ds f where f:
    "length ds < k" "chain P fs (path_join P dir (name e)) ds" "\<forall>d\<in>set ds. d \<notin> set skipDirs"
    "listed fs (descend P (path_join P dir (name e)) ds) f File"
    "p = path_join P (descend P (path_join P dir (name e)) ds) f"
    unfolding foundBelow_def by blast
  have "listed fs dir (name e) Directory"
    using assms(1-3) by (auto simp: listed_def)
  with f assms(4) show ?thesis
    unfolding foundBelow_def
    by (intro exI [of _ "name e # ds"] exI [of _ f]) (simp add: descend_Cons)
qed

text \<open>
  Every path in the accumulator after a scan was there before, or is a file found
  below the scanned directory within the levels that remain.
\<close>

lemma scan_found:
  "p \<in> set (fileList (scanDirectory P fs cb dirPath maxDepth currentDepth st maxFiles)) \<Longrightarrow>
     p \<in> set (fileList st) \<or> foundBelow P fs dirPath (maxDepth - currentDepth) p"
  "p \<in> set (fileList (scanEntries P fs cb dirPath entries maxDepth currentDepth st maxFiles)) \<Longrightarrow>
     p \<in> set (fileList st)
     \<or> (\<exists>e\<in>set entries. kind e = File \<and> p = path_join P dirPath (name e))
     \<or> (\<exists>e\<in>set entries. kind e = Directory \<and> name e \<notin> set skipDirs
            \<and> foundBelow P fs (path_join P dirPath (name e)) (maxDepth - (currentDepth + 1)) p)"
proof (induction P fs cb dirPath maxDepth currentDepth st maxFiles
         and P fs cb dirPath entries maxDepth currentDepth st maxFiles
       rule: scanDirectory_scanEntries.induct)
  case (1 P fs cb dirPath maxDepth currentDepth st maxFiles)
  show ?case
  proof (cases "maxDepth \<le> currentDepth \<or> maxFiles \<le> length (fileList st)")
    case True
    with "1.prems" show ?thesis by simp
  next
    case False
    then have k: "maxDepth - currentDepth = Suc (maxDepth - (currentDepth + 1))" by arith
    show ?thesis
    proof (cases "readdir fs dirPath")
      case (Inl err)
      with False "1.prems" show ?thesis by (simp add: Let_def split: if_splits)
    next
      case (Inr entries)
      let ?st1 = "if cb \<and> currentDepth = 0
                  then progressCallback (Path dirPath) (length (fileList st)) st else st"
      from False Inr "1.prems"
      have "p \<in> set (fileList (scanEntries P fs cb dirPath entries maxDepth currentDepth ?st1 maxFiles))"
        by (simp add: Let_def)
      from "1.IH" [OF False refl Inr this]
      consider "p \<in> set (fileList st)"
        | e where "e \<in> set entries" "kind e = File" "p = path_join P dirPath (name e)"
        | e where "e \<in> set entries" "kind e = Directory" "name e \<notin> set skipDirs"
            "foundBelow P fs (path_join P dirPath (name e)) (maxDepth - (currentDepth + 1)) p"
        by (auto split: if_splits)
      then show ?thesis
      proof cases
        case 1
        then show ?thesis by simp
      next
        case 2
        with Inr k show ?thesis
          using foundBelow_file [of fs dirPath entries e "maxDepth - currentDepth" P] by simp
      next
        case 3
        with Inr k show ?thesis
          using foundBelow_step [of fs dirPath entries e P "maxDepth - (currentDepth + 1)" p] by simp
      qed
    qed
  qed
next
  case (2 P fs cb dirPath maxDepth currentDepth st maxFiles)
  then show ?case by simp
next
  case (3 P fs cb dirPath entry rest maxDepth currentDepth st maxFiles)
  show ?case
  proof (cases "maxFiles \<le> length (fileList st)")
    case True
    with "3.prems" show ?thesis by simp
  next
    case False
    show ?thesis
    proof (cases "kind entry")
      case File
      with False "3.prems" "3.IH"(1) [OF False refl File refl refl] show ?thesis
        by (auto simp: Let_def split: if_splits)
    next
      case Directory
      show ?thesis
      proof (cases "name entry \<in> set skipDirs")
        case True
        with False Directory "3.prems" "3.IH"(4) [OF False refl Directory] show ?thesis
          by (auto simp: Let_def)
      next
        case notskipped: False
        with False Directory "3.prems"
          "3.IH"(2) [OF False refl Directory notskipped]
          "3.IH"(3) [OF False refl Directory notskipped]
        show ?thesis
          by (auto simp: Let_def)
      qed
    next
      case Other
      with False "3.prems" "3.IH"(5) [OF False refl Other] show ?thesis
        by (auto simp: Let_def)
    qed
  qed
qed

text \<open>The sink does not influence the files collected.\<close>

lemma scan_erase:
  "erase (scanDirectory P fs cb dirPath maxDepth currentDepth st maxFiles)
     = scanDirectory P fs False dirPath maxDepth currentDepth (erase st) maxFiles"
  "erase (scanEntries P fs cb dirPath entries maxDepth currentDepth st maxFiles)
     = scanEntries P fs False dirPath entries maxDepth currentDepth (erase st) maxFiles"
proof (induction P fs cb dirPath maxDepth currentDepth st maxFiles
         and P fs cb dirPath entries maxDepth currentDepth st maxFiles
       rule: scanDirectory_scanEntries.induct)
  case (1 P fs cb dirPath maxDepth currentDepth st maxFiles)
  then show ?case
    by (auto simp: Let_def erase_def progressCallback_def split: sum.splits)
next
  case (2 P fs cb dirPath maxDepth currentDepth st maxFiles)
  then show ?case by simp
next
  case (3 P fs cb dirPath entry rest maxDepth currentDepth st maxFiles)
  show ?case
  proof (cases "maxFiles \<le> length (fileList st)")
    case True
    then show ?thesis by (simp add: erase_def)
  next
    case False
    then show ?thesis
      using "3.IH"
      by (cases "kind entry") (auto simp: Let_def erase_def progressCallback_def)
  qed
qed

lemma fileList_erase: "fileList (erase st) = fileList st"
  by (simp add: erase_def)

lemma fileList_scan_sink:
  "fileList (scanDirectory P fs cb dir maxDepth 0 \<lparr>fileList = [], calls = cs\<rparr> maxFiles)
     = scanFiles P fs dir maxDepth maxFiles"
proof -
  have "erase \<lparr>fileList = [], calls = cs\<rparr> = \<lparr>fileList = [], calls = []\<rparr>"
    by (simp add: erase_def)
  then have "erase (scanDirectory P fs cb dir maxDepth 0 \<lparr>fileList = [], calls = cs\<rparr> maxFiles)
               = scanDirectory P fs False dir maxDepth 0 \<lparr>fileList = [], calls = []\<rparr> maxFiles"
    by (simp only: scan_erase(1))
  then show ?thesis
    unfolding scanFiles_def by (metis fileList_erase)
qed

lemma scanFiles_cap: "length (scanFiles P fs dir maxDepth maxFiles) \<le> maxFiles"
  using scan_cap(1) [of P fs False dir maxDepth 0 "\<lparr>fileList = [], calls = []\<rparr>" maxFiles]
  unfolding scanFiles_def by simp

lemma scanFiles_unreadable: "readdir fs dir = Inl e \<Longrightarrow> scanFiles P fs dir maxDepth maxFiles = []"
  by (simp add: scanFiles_def)

text \<open>The files found on the POSIX platform in the small file systems.\<close>

lemma home_joins:
  "path_join posix ''/home/u'' ''Documents'' = ''/home/u/Documents''"
  "path_join posix ''/home/u'' ''Desktop'' = ''/home/u/Desktop''"
  "path_join posix ''/home/u'' ''Downloads'' = ''/home/u/Downloads''"
  "path_join posix ''/home/u'' ''Pictures'' = ''/home/u/Pictures''"
  "path_join posix ''/home/u'' ''Music'' = ''/home/u/Music''"
  "path_join posix ''/home/u'' ''Videos'' = ''/home/u/Videos''"
  "path_join posix ''/home/u/Documents'' ''a.txt'' = ''/home/u/Documents/a.txt''"
  "path_join posix ''/home/u/Documents'' ''z.txt'' = ''/home/u/Documents/z.txt''"
  "path_join posix ''/home/u/Documents'' ''notes'' = ''/home/u/Documents/notes''"
  "path_join posix ''/home/u/Documents'' ''node_modules'' = ''/home/u/Documents/node_modules''"
  "path_join posix ''/home/u/Documents'' ''link'' = ''/home/u/Documents/link''"
  "path_join posix ''/home/u/Documents/notes'' ''b.txt'' = ''/home/u/Documents/notes/b.txt''"
  "path_join posix ''/home/u/Documents/notes'' ''old'' = ''/home/u/Documents/notes/old''"
  "path_join posix ''/home/u/Documents/notes/old'' ''c.txt'' = ''/home/u/Documents/notes/old/c.txt''"
  "path_join posix ''/repo/.git'' ''HEAD'' = ''/repo/.git/HEAD''"
  by code_simp+

lemma home_roots:
  "filter (existsSync home_fs) (commonDirs posix home_env) = [''/home/u/Documents'', ''/home/u/Desktop'']"
  "filter (existsSync locked_fs) (commonDirs posix home_env) = [''/home/u/Desktop'']"
  "filter (existsSync repo_fs) (commonDirs posix home_env) = []"
  by (simp_all add: commonDirs_def userProfile_def orDefault_def home_env_def home_joins
        home_fs_def locked_fs_def repo_fs_def)

lemma home_scan:
  "scanFiles posix home_fs ''/home/u/Documents'' 7 20000
     = [''/home/u/Documents/a.txt'', ''/home/u/Documents/notes/b.txt'',
        ''/home/u/Documents/notes/old/c.txt'', ''/home/u/Documents/z.txt'']"
  "scanFiles posix home_fs ''/home/u/Documents'' 2 20000
     = [''/home/u/Documents/a.txt'', ''/home/u/Documents/notes/b.txt'', ''/home/u/Documents/z.txt'']"
  "scanFiles posix home_fs ''/home/u/Documents'' 7 2
     = [''/home/u/Documents/a.txt'', ''/home/u/Documents/notes/b.txt'']"
  "scanFiles posix home_fs ''/home/u/Desktop'' 7 19996 = []"
  "scanFiles posix repo_fs ''/repo/.git'' 10 20000 = [''/repo/.git/HEAD'']"
  by (simp_all add: scanFiles_def home_joins home_fs_def home_readdir_def repo_fs_def
        repo_readdir_def skipDirs_def Let_def)
section \<open>DirectoryScanner: properties\<close>

text \<open>
  C2. Started on an empty accumulator, \<open>scanDirectory\<close> returns at most \<open>maxFiles\<close>
  entries, for every root, depth limit and cap. Every entry returned is a file listed
  in a directory that is reached from the root through fewer than \<open>maxDepth\<close>
  directories, each listed in the one before it: no entry lies deeper than
  \<open>maxDepth\<close> levels below the root. The cap is one cap on the shared accumulator:
  a call at any depth, on any accumulator within the cap, returns an accumulator
  within the cap.
\<close>

theorem scanDirectory_bounds:
  "length (fileList (scanDirectory P fs cb dir maxDepth 0 \<lparr>fileList = [], calls = cs\<rparr> maxFiles))
     \<le> maxFiles
   \<and> (\<forall>p\<in>set (fileList (scanDirectory P fs cb dir maxDepth 0 \<lparr>fileList = [], calls = cs\<rparr> maxFiles)).
        \<exists>ds f. length ds < maxDepth \<and> chain P fs dir ds
          \<and> listed fs (descend P dir ds) f File \<and> p = path_join P (descend P dir ds) f)
   \<and> (length (fileList st) \<le> maxFiles \<longrightarrow>
        length (fileList (scanDirectory P fs cb dirPath maxDepth currentDepth st maxFiles)) \<le> maxFiles)"
proof (intro conjI ballI impI)
  show "length (fileList (scanDirectory P fs cb dir maxDepth 0 \<lparr>fileList = [], calls = cs\<rparr> maxFiles))
          \<le> maxFiles"
    using scan_cap(1) [of P fs cb dir maxDepth 0 "\<lparr>fileList = [], calls = cs\<rparr>" maxFiles]
    by (simp del: scanDirectory.simps)
next
  fix p
  assume "p \<in> set (fileList (scanDirectory P fs cb dir maxDepth 0 \<lparr>fileList = [], calls = cs\<rparr> maxFiles))"
  from scan_found(1) [OF this] have "foundBelow P fs dir maxDepth p"
    by simp
  then show "\<exists>ds f. length ds < maxDepth \<and> chain P fs dir ds
               \<and> listed fs (descend P dir ds) f File \<and> p = path_join P (descend P dir ds) f"
    unfolding foundBelow_def by blast
next
  assume "length (fileList st) \<le> maxFiles"
  then show "length (fileList (scanDirectory P fs cb dirPath maxDepth currentDepth st maxFiles))
               \<le> maxFiles"
    using scan_cap(1) [of P fs cb dirPath maxDepth currentDepth st maxFiles]
    by (simp del: scanDirectory.simps)
qed

theorem scanDirectory_bounds_witness:
  "fileList (scanDirectory posix home_fs False ''/home/u/Documents'' 7 0 \<lparr>fileList = [], calls = []\<rparr> 2)
     = [''/home/u/Documents/a.txt'', ''/home/u/Documents/notes/b.txt'']
   \<and> fileList (scanDirectory posix home_fs False ''/home/u/Documents'' 2 0
                 \<lparr>fileList = [], calls = []\<rparr> 20000)
     = [''/home/u/Documents/a.txt'', ''/home/u/Documents/notes/b.txt'', ''/home/u/Documents/z.txt'']
   \<and> (\<exists>ds f. length ds < 2 \<and> chain posix home_fs ''/home/u/Documents'' ds
         \<and> listed home_fs (descend posix ''/home/u/Documents'' ds) f File
         \<and> ''/home/u/Documents/notes/b.txt'' = path_join posix (descend posix ''/home/u/Documents'' ds) f)"
proof -
  have r1: "fileList (scanDirectory posix home_fs False ''/home/u/Documents'' 7 0
                        \<lparr>fileList = [], calls = []\<rparr> 2)
              = [''/home/u/Documents/a.txt'', ''/home/u/Documents/notes/b.txt'']"
    by (simp only: fileList_scan_sink home_scan)
  have r2: "fileList (scanDirectory posix home_fs False ''/home/u/Documents'' 2 0
                        \<lparr>fileList = [], calls = []\<rparr> 20000)
              = [''/home/u/Documents/a.txt'', ''/home/u/Documents/notes/b.txt'',
                 ''/home/u/Documents/z.txt'']"
    by (simp only: fileList_scan_sink home_scan)
  have m: "''/home/u/Documents/notes/b.txt''
             \<in> set (fileList (scanDirectory posix home_fs False ''/home/u/Documents'' 2 0
                       \<lparr>fileList = [], calls = []\<rparr> 20000))"
    by (simp only: r2) simp
  from scanDirectory_bounds [of posix home_fs False "''/home/u/Documents''" 2 "[]" 20000] m
  have "\<exists>ds f. length ds < 2 \<and> chain posix home_fs ''/home/u/Documents'' ds
          \<and> listed home_fs (descend posix ''/home/u/Documents'' ds) f File
          \<and> ''/home/u/Documents/notes/b.txt'' = path_join posix (descend posix ''/home/u/Documents'' ds) f"
    by blast
  with r1 r2 show ?thesis by blast
qed

text \<open>
  C6, as amended. Every entry \<open>scanDirectory\<close> returns is reached from the root
  through directories none of which has a name of the skip list, for every root,
  depth limit and cap; and at every depth the loop passes over a directory entry
  with such a name without recursing into it. The root itself is where the scan
  starts: its own name, and the names of the directories above it, are not compared
  with the skip list.
\<close>

theorem scanDirectory_skips:
  "(\<forall>p\<in>set (fileList (scanDirectory P fs cb dir maxDepth 0 \<lparr>fileList = [], calls = cs\<rparr> maxFiles)).
      \<exists>ds f. (\<forall>d\<in>set ds. d \<notin> set skipDirs) \<and> chain P fs dir ds
        \<and> listed fs (descend P dir ds) f File \<and> p = path_join P (descend P dir ds) f)
   \<and> (kind entry = Directory \<and> name entry \<in> set skipDirs \<longrightarrow>
        scanEntries P fs cb dirPath (entry # rest) maxDepth currentDepth st maxFiles
          = scanEntries P fs cb dirPath rest maxDepth currentDepth st maxFiles)"
proof (intro conjI ballI impI)
  fix p
  assume "p \<in> set (fileList (scanDirectory P fs cb dir maxDepth 0 \<lparr>fileList = [], calls = cs\<rparr> maxFiles))"
  from scan_found(1) [OF this] have "foundBelow P fs dir maxDepth p"
    by simp
  then show "\<exists>ds f. (\<forall>d\<in>set ds. d \<notin> set skipDirs) \<and> chain P fs dir ds
               \<and> listed fs (descend P dir ds) f File \<and> p = path_join P (descend P dir ds) f"
    unfolding foundBelow_def by blast
next
  assume "kind entry = Directory \<and> name entry \<in> set skipDirs"
  then show "scanEntries P fs cb dirPath (entry # rest) maxDepth currentDepth st maxFiles
               = scanEntries P fs cb dirPath rest maxDepth currentDepth st maxFiles"
    by (cases rest) (simp_all add: Let_def)
qed

theorem scanDirectory_skips_witness:
  "fileList (scanDirectory posix home_fs False ''/home/u/Documents'' 7 0
               \<lparr>fileList = [], calls = []\<rparr> 20000)
     = [''/home/u/Documents/a.txt'', ''/home/u/Documents/notes/b.txt'',
        ''/home/u/Documents/notes/old/c.txt'', ''/home/u/Documents/z.txt'']
   \<and> listed home_fs ''/home/u/Documents/node_modules'' ''pkg.js'' File
   \<and> (\<exists>ds f. ''node_modules'' \<notin> set ds \<and> chain posix home_fs ''/home/u/Documents'' ds
         \<and> listed home_fs (descend posix ''/home/u/Documents'' ds) f File
         \<and> ''/home/u/Documents/notes/old/c.txt''
             = path_join posix (descend posix ''/home/u/Documents'' ds) f)"
proof -
  have r: "fileList (scanDirectory posix home_fs False ''/home/u/Documents'' 7 0
                       \<lparr>fileList = [], calls = []\<rparr> 20000)
             = [''/home/u/Documents/a.txt'', ''/home/u/Documents/notes/b.txt'',
                ''/home/u/Documents/notes/old/c.txt'', ''/home/u/Documents/z.txt'']"
    by (simp only: fileList_scan_sink home_scan)
  have l: "listed home_fs ''/home/u/Documents/node_modules'' ''pkg.js'' File"
    by (simp add: listed_def home_fs_def home_readdir_def)
  have m: "''/home/u/Documents/notes/old/c.txt''
             \<in> set (fileList (scanDirectory posix home_fs False ''/home/u/Documents'' 7 0
                       \<lparr>fileList = [], calls = []\<rparr> 20000))"
    by (simp only: r) simp
  have s: "''node_modules'' \<in> set skipDirs"
    by (simp add: skipDirs_def)
  from scanDirectory_skips [of posix home_fs False "''/home/u/Documents''" 7 "[]" 20000] m
  obtain ds f where "\<forall>d\<in>set ds. d \<notin> set skipDirs" "chain posix home_fs ''/home/u/Documents'' ds"
    "listed home_fs (descend posix ''/home/u/Documents'' ds) f File"
    "''/home/u/Documents/notes/old/c.txt'' = path_join posix (descend posix ''/home/u/Documents'' ds) f"
    by blast
  with s have "\<exists>ds f. ''node_modules'' \<notin> set ds \<and> chain posix home_fs ''/home/u/Documents'' ds
         \<and> listed home_fs (descend posix ''/home/u/Documents'' ds) f File
         \<and> ''/home/u/Documents/notes/old/c.txt''
             = path_join posix (descend posix ''/home/u/Documents'' ds) f"
    by blast
  with r l show ?thesis by blast
qed

text \<open>
  C6 as stated fails for a root that is itself a directory of a skip-listed name: the
  scan of \<open>/repo/.git\<close> returns \<open>/repo/.git/HEAD\<close>, which lies inside \<open>.git\<close>.
\<close>

theorem scanDirectory_skips_counterexample:
  "fileList (scanDirectory posix repo_fs False ''/repo/.git'' 10 0 \<lparr>fileList = [], calls = []\<rparr> 20000)
     = [''/repo/.git/HEAD'']
   \<and> insideSkipped posix ''/repo/.git/HEAD''"
proof -
  have r: "fileList (scanDirectory posix repo_fs False ''/repo/.git'' 10 0
                       \<lparr>fileList = [], calls = []\<rparr> 20000)
             = [''/repo/.git/HEAD'']"
    by (simp only: fileList_scan_sink home_scan)
  have i: "insideSkipped posix ''/repo/.git/HEAD''"
    by code_simp
  from r i show ?thesis by (rule conjI)
qed
section \<open>RootSetScanner: properties\<close>

text \<open>The loop of the source collects what the specification's wording collects.\<close>

lemma scanRoots_collect:
  "fileList (scanRoots P fs cb dirs i n st) = collectRoots P fs dirs (fileList st)"
proof (induction dirs arbitrary: i st)
  case Nil
  then show ?case by simp
next
  case (Cons dir rest)
  show ?case
  proof (cases "totalMaxFiles \<le> length (fileList st)")
    case True
    then show ?thesis by (simp add: Let_def)
  next
    case False
    then show ?thesis
      by (simp add: Let_def Cons.IH fileList_scan_sink del: scanDirectory.simps)
  qed
qed

lemma collectRoots_cap:
  "length collected \<le> totalMaxFiles \<Longrightarrow> length (collectRoots P fs dirs collected) \<le> totalMaxFiles"
proof (induction dirs arbitrary: collected)
  case Nil
  then show ?case by simp
next
  case (Cons dir rest)
  show ?case
  proof (cases "totalMaxFiles \<le> length collected")
    case True
    with Cons.prems show ?thesis by simp
  next
    case False
    have "length (scanFiles P fs dir 7 (totalMaxFiles - length collected))
            \<le> totalMaxFiles - length collected"
      by (rule scanFiles_cap)
    with False have "length (collected @ scanFiles P fs dir 7 (totalMaxFiles - length collected))
                       \<le> totalMaxFiles"
      by simp
    from Cons.IH [OF this] False show ?thesis by simp
  qed
qed

lemma collectRoots_unreadable:
  "\<forall>d\<in>set dirs. \<exists>e. readdir fs d = Inl e \<Longrightarrow> collectRoots P fs dirs collected = collected"
proof (induction dirs arbitrary: collected)
  case Nil
  then show ?case by simp
next
  case (Cons dir rest)
  then obtain e where "readdir fs dir = Inl e" by auto
  then have "scanFiles P fs dir 7 (totalMaxFiles - length collected) = []"
    by (rule scanFiles_unreadable)
  with Cons show ?case by simp
qed

lemma scanCommonDirectories_result:
  "fst (scanCommonDirectories P fs env cb)
     = (if filter (existsSync fs) (commonDirs P env) = [] then Inl NoAccessibleRoots
        else if collectRoots P fs (filter (existsSync fs) (commonDirs P env)) [] = []
        then Inl NoFilesFound
        else Inr (collectRoots P fs (filter (existsSync fs) (commonDirs P env)) []))"
  by (simp add: scanCommonDirectories_def Let_def scanRoots_collect)

text \<open>
  C3. The loop over the surviving roots collects exactly what the specification's
  wording collects: the roots in their fixed order, each scanned with the capacity
  that remains (the global cap minus the number of files collected so far), and no
  further root once the cap is reached. Whatever the file system, a result of
  \<open>scanCommonDirectories\<close> is this collection over the roots that exist, and has at
  most 20000 entries.
\<close>

theorem scanCommonDirectories_cap:
  "fileList (scanRoots P fs cb dirs i n st) = collectRoots P fs dirs (fileList st)
   \<and> collectRoots P fs (dir # rest) collected
       = (if length collected \<ge> 20000 then collected
          else collectRoots P fs rest (collected @ scanFiles P fs dir 7 (20000 - length collected)))
   \<and> (length collected \<ge> 20000 \<longrightarrow> collectRoots P fs dirs collected = collected)
   \<and> (fst (scanCommonDirectories P fs env cb) = Inr files \<longrightarrow>
        files = collectRoots P fs (filter (existsSync fs) (commonDirs P env)) []
        \<and> length files \<le> 20000)"
proof (intro conjI impI)
  show "fileList (scanRoots P fs cb dirs i n st) = collectRoots P fs dirs (fileList st)"
    by (rule scanRoots_collect)
next
  show "collectRoots P fs (dir # rest) collected
          = (if length collected \<ge> 20000 then collected
             else collectRoots P fs rest (collected @ scanFiles P fs dir 7 (20000 - length collected)))"
    by (simp add: totalMaxFiles_def)
next
  assume "length collected \<ge> 20000"
  then show "collectRoots P fs dirs collected = collected"
    by (cases dirs) (simp_all add: totalMaxFiles_def)
next
  assume r: "fst (scanCommonDirectories P fs env cb) = Inr files"
  then show "files = collectRoots P fs (filter (existsSync fs) (commonDirs P env)) []"
    by (simp add: scanCommonDirectories_result split: if_splits)
  moreover have "length (collectRoots P fs (filter (existsSync fs) (commonDirs P env)) []) \<le> 20000"
    using collectRoots_cap [of "[]" P fs "filter (existsSync fs) (commonDirs P env)"]
    by (simp add: totalMaxFiles_def)
  ultimately show "length files \<le> 20000" by simp
qed

lemma home_collect:
  "collectRoots posix home_fs [''/home/u/Documents'', ''/home/u/Desktop''] []
     = [''/home/u/Documents/a.txt'', ''/home/u/Documents/notes/b.txt'',
        ''/home/u/Documents/notes/old/c.txt'', ''/home/u/Documents/z.txt'']"
  by (simp add: totalMaxFiles_def home_scan)

theorem scanCommonDirectories_cap_witness:
  "fst (scanCommonDirectories posix home_fs home_env True)
     = Inr [''/home/u/Documents/a.txt'', ''/home/u/Documents/notes/b.txt'',
            ''/home/u/Documents/notes/old/c.txt'', ''/home/u/Documents/z.txt'']
   \<and> [''/home/u/Documents/a.txt'', ''/home/u/Documents/notes/b.txt'',
       ''/home/u/Documents/notes/old/c.txt'', ''/home/u/Documents/z.txt'']
      = collectRoots posix home_fs (filter (existsSync home_fs) (commonDirs posix home_env)) []
   \<and> length [''/home/u/Documents/a.txt'', ''/home/u/Documents/notes/b.txt'',
              ''/home/u/Documents/notes/old/c.txt'', ''/home/u/Documents/z.txt''] \<le> (20000 :: nat)"
proof -
  have r: "fst (scanCommonDirectories posix home_fs home_env True)
             = Inr [''/home/u/Documents/a.txt'', ''/home/u/Documents/notes/b.txt'',
                    ''/home/u/Documents/notes/old/c.txt'', ''/home/u/Documents/z.txt'']"
    by (simp only: scanCommonDirectories_result home_roots home_collect) simp
  from r scanCommonDirectories_cap [of posix home_fs True _ _ _ _ _ _ _ home_env]
  show ?thesis by blast
qed

text \<open>
  C4. \<open>scanCommonDirectories\<close> fails with \<open>NoAccessibleRoots\<close> exactly when none of
  the six well-known directories passes the filter (\<open>fs.existsSync\<close>); it fails with
  \<open>NoFilesFound\<close> exactly when some root passes and the roots that pass yield no file
  at all; in every other case it returns the files collected. It has no other
  outcome: a directory that cannot be listed contributes nothing and raises nothing,
  so that even a file system in which no directory can be listed gives
  \<open>NoFilesFound\<close>.
\<close>

theorem scanCommonDirectories_outcome:
  "((fst (scanCommonDirectories P fs env cb) = Inl NoAccessibleRoots)
      = (filter (existsSync fs) (commonDirs P env) = []))
   \<and> ((fst (scanCommonDirectories P fs env cb) = Inl NoFilesFound)
      = (filter (existsSync fs) (commonDirs P env) \<noteq> []
         \<and> collectRoots P fs (filter (existsSync fs) (commonDirs P env)) [] = []))
   \<and> (filter (existsSync fs) (commonDirs P env) \<noteq> []
        \<and> collectRoots P fs (filter (existsSync fs) (commonDirs P env)) [] \<noteq> [] \<longrightarrow>
      fst (scanCommonDirectories P fs env cb)
        = Inr (collectRoots P fs (filter (existsSync fs) (commonDirs P env)) []))
   \<and> fst (scanCommonDirectories P fs env cb) \<noteq> Inl EmptyCandidateSet
   \<and> (filter (existsSync fs) (commonDirs P env) \<noteq> [] \<and> (\<forall>d. \<exists>e. readdir fs d = Inl e) \<longrightarrow>
      fst (scanCommonDirectories P fs env cb) = Inl NoFilesFound)"
proof -
  have "collectRoots P fs (filter (existsSync fs) (commonDirs P env)) [] = []"
    if "\<forall>d. \<exists>e. readdir fs d = Inl e"
    using that collectRoots_unreadable [of "filter (existsSync fs) (commonDirs P env)" fs P "[]"]
    by blast
  then show ?thesis
    by (auto simp: scanCommonDirectories_result)
qed

theorem scanCommonDirectories_outcome_witness:
  "fst (scanCommonDirectories posix repo_fs home_env False) = Inl NoAccessibleRoots
   \<and> fst (scanCommonDirectories posix locked_fs home_env False) = Inl NoFilesFound
   \<and> fst (scanCommonDirectories posix home_fs home_env False)
       = Inr [''/home/u/Documents/a.txt'', ''/home/u/Documents/notes/b.txt'',
              ''/home/u/Documents/notes/old/c.txt'', ''/home/u/Documents/z.txt'']"
proof -
  have locked: "\<forall>d. \<exists>e. readdir locked_fs d = Inl e"
    by (simp add: locked_fs_def)
  have roots: "filter (existsSync locked_fs) (commonDirs posix home_env) \<noteq> []"
    "filter (existsSync home_fs) (commonDirs posix home_env) \<noteq> []"
    by (simp_all add: home_roots)
  have files: "collectRoots posix home_fs (filter (existsSync home_fs) (commonDirs posix home_env)) []
                 = [''/home/u/Documents/a.txt'', ''/home/u/Documents/notes/b.txt'',
                    ''/home/u/Documents/notes/old/c.txt'', ''/home/u/Documents/z.txt'']"
    by (simp only: home_roots home_collect)
  show ?thesis
    using scanCommonDirectories_outcome [of posix repo_fs home_env False]
      scanCommonDirectories_outcome [of posix locked_fs home_env False]
      scanCommonDirectories_outcome [of posix home_fs home_env False]
      locked roots files home_roots(3)
    by simp
qed

section \<open>TargetSelector: properties\<close>


lemma excess_upper: "M < 2 ^ (53 + excess M)"
proof (induction M rule: excess.induct)
  case (1 M)
  show ?case
  proof (cases "M < 2 ^ 53")
    case True
    then show ?thesis by (simp add: excess.simps)
  next
    case False
    with 1 have "M div 2 < 2 ^ (53 + excess (M div 2))" by simp
    then have "M < 2 * 2 ^ (53 + excess (M div 2))" by arith
    then have "M < 2 ^ (53 + Suc (excess (M div 2)))"
      by (simp only: add_Suc_right power_Suc)
    moreover from False have "excess M = Suc (excess (M div 2))"
      by (simp add: excess.simps [of M])
    ultimately show ?thesis by (simp only:)
  qed
qed


















end
